theory Spec2Isabelle
  imports
    Main
    "HOL-Library.Char_ord"
    "HOL-Library.List_Lexorder"
    "HOL-Library.Product_Lexorder"
    "HOL-Library.Sublist"
begin

section \<open>Strings, characters and the regular expressions of the script\<close>

text \<open>
  The script \<^verbatim>\<open>scripts/get_cmake_cuda_archs.py\<close> works on Python \<^verbatim>\<open>str\<close> values.
  A Python string is modelled as a HOL \<^typ>\<open>string\<close>; a \<^typ>\<open>char\<close> stands for the code
  point of the same number, so the alphabet of the model is the code points below 256.
  On this alphabet Python's character classes are the following ones. Strings compare as
  in Python: lexicographically by code point (\<open>Char_ord\<close> and \<open>List_Lexorder\<close>), and
  tuples compare lexicographically (\<open>Product_Lexorder\<close>). Python's integers are
  unbounded and are modelled by \<^typ>\<open>int\<close>; the optional limit on the number of digits
  that \<^verbatim>\<open>int()\<close> converts is not modelled.
\<close>

definition newline :: char where
  "newline = CHR 0x0A"

definition is_space :: "char \<Rightarrow> bool" where
  \<comment> \<open>\<^verbatim>\<open>str.isspace\<close>, which is also the class \<^verbatim>\<open>\s\<close> of a \<^verbatim>\<open>str\<close> pattern.\<close>
  "is_space c =
     (c \<in> set [CHR 0x09, CHR 0x0A, CHR 0x0B, CHR 0x0C, CHR 0x0D,
                CHR 0x1C, CHR 0x1D, CHR 0x1E, CHR 0x1F, CHR 0x20, CHR 0x85, CHR 0xA0])"

definition is_digit :: "char \<Rightarrow> bool" where
  \<comment> \<open>the class \<^verbatim>\<open>\d\<close>\<close>
  "is_digit c = (CHR ''0'' \<le> c \<and> c \<le> CHR ''9'')"

definition is_letter :: "char \<Rightarrow> bool" where
  \<comment> \<open>the class \<^verbatim>\<open>[a-zA-Z]\<close>\<close>
  "is_letter c = ((CHR ''a'' \<le> c \<and> c \<le> CHR ''z'') \<or> (CHR ''A'' \<le> c \<and> c \<le> CHR ''Z''))"

definition lower_char :: "char \<Rightarrow> char" where
  "lower_char c =
     (if (CHR ''A'' \<le> c \<and> c \<le> CHR ''Z'') \<or> (CHR 0xC0 \<le> c \<and> c \<le> CHR 0xDE \<and> c \<noteq> CHR 0xD7)
      then char_of (of_char c + (32 :: nat)) else c)"

definition lower :: "string \<Rightarrow> string" where
  \<comment> \<open>\<^verbatim>\<open>str.lower\<close>\<close>
  "lower s = map lower_char s"

definition strip :: "string \<Rightarrow> string" where
  \<comment> \<open>\<^verbatim>\<open>str.strip()\<close>: leading and trailing whitespace removed\<close>
  "strip s = rev (dropWhile is_space (rev (dropWhile is_space s)))"

fun split_on :: "char \<Rightarrow> string \<Rightarrow> string \<Rightarrow> string list" where
  \<comment> \<open>\<^verbatim>\<open>s.split(sep)\<close> for a separator of one character; the first argument is the
      piece read so far\<close>
  "split_on sep cur [] = [cur]"
| "split_on sep cur (c # cs) =
     (if c = sep then cur # split_on sep [] cs else split_on sep (cur @ [c]) cs)"

definition split_lines :: "string \<Rightarrow> string list" where
  \<comment> \<open>\<^verbatim>\<open>s.split("\n")\<close>\<close>
  "split_lines s = split_on newline [] s"

fun join :: "string \<Rightarrow> string list \<Rightarrow> string" where
  \<comment> \<open>\<^verbatim>\<open>sep.join(xs)\<close>\<close>
  "join sep [] = []"
| "join sep [x] = x"
| "join sep (x # y # ys) = x @ sep @ join sep (y # ys)"

definition is_sep :: "char \<Rightarrow> bool" where
  \<comment> \<open>the class \<^verbatim>\<open>[\s,]\<close>\<close>
  "is_sep c = (is_space c \<or> c = CHR '','')"

function re_split_seps :: "string \<Rightarrow> string \<Rightarrow> string list" where
  \<comment> \<open>\<^verbatim>\<open>re.split(r"[\s,]+", s)\<close>: the pieces between the maximal runs of separators,
      with an empty piece before a leading run and after a trailing one\<close>
  "re_split_seps cur [] = [cur]"
| "re_split_seps cur (c # cs) =
     (if is_sep c then cur # re_split_seps [] (dropWhile is_sep cs)
      else re_split_seps (cur @ [c]) cs)"
  by pat_completeness auto
termination
  by (relation "measure (\<lambda>(cur, s). length s)")
     (auto simp: less_Suc_eq_le length_dropWhile_le)

definition digit_val :: "char \<Rightarrow> int" where
  "digit_val c = int (of_char c) - 48"

definition int_of_digits :: "string \<Rightarrow> int" where
  \<comment> \<open>\<^verbatim>\<open>int(s)\<close> on a non-empty string of decimal digits\<close>
  "int_of_digits s = foldl (\<lambda>n c. 10 * n + digit_val c) 0 s"

definition re_match_digits :: "string \<Rightarrow> string option" where
  \<comment> \<open>\<^verbatim>\<open>re.match(r"\d+", s)\<close>: the longest run of digits at the start, None when it is empty\<close>
  "re_match_digits s =
     (let d = takeWhile is_digit s in if d = [] then None else Some d)"

definition before_eol :: "string \<Rightarrow> string" where
  \<comment> \<open>\<^verbatim>\<open>$\<close> matches at the end of the string and also just before a newline that ends it;
      this is the string without that newline\<close>
  "before_eol s = (if s \<noteq> [] \<and> last s = newline then butlast s else s)"

definition re_search_letter_end :: "string \<Rightarrow> bool" where
  \<comment> \<open>\<^verbatim>\<open>re.search(r"[a-zA-Z]$", s)\<close>\<close>
  "re_search_letter_end s = (let t = before_eol s in t \<noteq> [] \<and> is_letter (last t))"

definition re_match_major :: "string \<Rightarrow> bool" where
  \<comment> \<open>\<^verbatim>\<open>re.match(r"^\d+0$", s)\<close>: one digit or more, then the digit 0, then the end\<close>
  "re_match_major s =
     (let t = before_eol s in 2 \<le> length t \<and> list_all is_digit t \<and> last t = CHR ''0'')"

fun str_nat :: "nat \<Rightarrow> string" where
  "str_nat n =
     (if n < 10 then [char_of (48 + n)] else str_nat (n div 10) @ [char_of (48 + n mod 10)])"

definition str_int :: "int \<Rightarrow> string" where
  \<comment> \<open>\<^verbatim>\<open>str(i)\<close>\<close>
  "str_int i = (if i < 0 then CHR ''-'' # str_nat (nat (- i)) else str_nat (nat i))"

definition str_opt_int :: "int option \<Rightarrow> string" where
  \<comment> \<open>how an f-string shows an \<^verbatim>\<open>Optional[int]\<close>\<close>
  "str_opt_int m = (case m of None \<Rightarrow> ''None'' | Some i \<Rightarrow> str_int i)"

section \<open>The script\<close>

text \<open>
  \<^verbatim>\<open>die(msg)\<close> logs the message at level ERROR and leaves with exit code 1. A function
  that may call it returns a sum whose left side is the failure. The one exception that
  the script can raise without catching it is the \<^verbatim>\<open>AttributeError\<close> of
  \<^verbatim>\<open>re.match(...).group(1)\<close> on an identifier that does not start with a digit. Debug
  logging is not modelled.
\<close>

datatype failure =
    Die string
  | AttributeError

type_synonym 'a result = "failure + 'a"

definition get_arch_sort_key :: "string \<Rightarrow> int \<times> string" where
  "get_arch_sort_key arch =
     (case re_match_digits arch of
        None \<Rightarrow> (0, arch)
      | Some d \<Rightarrow> (int_of_digits d, arch))"

definition sort_archs :: "string list \<Rightarrow> string list" where
  \<comment> \<open>\<^verbatim>\<open>sorted(archs, key=get_arch_sort_key)\<close>, a stable sort\<close>
  "sort_archs archs = sort_key get_arch_sort_key archs"

text \<open>
  What \<^verbatim>\<open>subprocess.run(cmd, capture_output=True, text=True, check=True)\<close> gives: the
  two exceptions that \<^verbatim>\<open>get_nvcc_archs\<close> catches, or the text of standard output.
\<close>

datatype proc_result =
    FileNotFoundError
  | CalledProcessError string
  | Completed string

definition code_ls_lines :: "string \<Rightarrow> string list" where
  \<comment> \<open>the lines that the loop of \<^verbatim>\<open>get_nvcc_archs\<close> reads:
      \<^verbatim>\<open>result.stdout.strip().split("\n")\<close>, each of them stripped\<close>
  "code_ls_lines out = map strip (split_lines (strip out))"

definition parse_code_ls :: "string \<Rightarrow> string list" where
  \<comment> \<open>the loop of \<^verbatim>\<open>get_nvcc_archs\<close>: the identifiers found, each once. The source
      collects them in a \<^verbatim>\<open>set\<close>, whose order of enumeration is not fixed; the sorted
      list does not depend on it (lemma \<open>sort_archs_set_eq\<close>).\<close>
  "parse_code_ls out =
     remdups (map (drop 3) (filter (\<lambda>line. take 3 line = ''sm_'') (code_ls_lines out)))"

definition get_nvcc_archs :: "string \<Rightarrow> proc_result \<Rightarrow> string list result" where
  \<comment> \<open>the first argument is \<^verbatim>\<open>str(nvcc_path)\<close>, the second what running
      \<^verbatim>\<open>[str(nvcc_path), "-code-ls"]\<close> gives\<close>
  "get_nvcc_archs nvcc_path res =
     (case res of
        FileNotFoundError \<Rightarrow>
          Inl (Die (''nvcc command '' @ [CHR 0x27] @ nvcc_path @ [CHR 0x27]
                    @ '' not found or not executable.''))
      | CalledProcessError err \<Rightarrow>
          Inl (Die (''Command '' @ [CHR 0x27] @ join '' '' [nvcc_path, ''-code-ls''] @ [CHR 0x27]
                    @ '' failed:'' @ [newline] @ err))
      | Completed out \<Rightarrow>
          (let raw_archs = parse_code_ls out in
           if raw_archs = []
           then Inl (Die (''Could not parse any architectures (sm_XX) from ''
                          @ [CHR 0x27] @ ''nvcc -code-ls'' @ [CHR 0x27] @ '' output.''))
           else Inr (sort_archs raw_archs)))"

definition parse_requested_archs :: "string \<Rightarrow> string list" where
  "parse_requested_archs req_str =
     (if req_str = [] then []
      else filter (\<lambda>a. a \<noteq> []) (re_split_seps [] (strip req_str)))"

fun min_arch_loop :: "int \<Rightarrow> string list \<Rightarrow> string list result" where
  \<comment> \<open>the list comprehension of \<^verbatim>\<open>filter_archs_with_min_arch\<close>\<close>
  "min_arch_loop m [] = Inr []"
| "min_arch_loop m (arch # archs) =
     (case re_match_digits arch of
        None \<Rightarrow> Inl AttributeError
      | Some d \<Rightarrow>
          (case min_arch_loop m archs of
             Inl e \<Rightarrow> Inl e
           | Inr rest \<Rightarrow> Inr (if m \<le> int_of_digits d then arch # rest else rest)))"

definition filter_archs_with_min_arch :: "string list \<Rightarrow> int option \<Rightarrow> string list result" where
  "filter_archs_with_min_arch archs min_arch =
     (case min_arch of
        None \<Rightarrow> Inr archs
      | Some m \<Rightarrow> if m \<le> 0 then Inr archs else min_arch_loop m archs)"

definition igpu_archs :: "string list" where
  "igpu_archs = [''72'', ''87'', ''101'', ''101a'']"

definition filter_archs_for_platform :: "string \<Rightarrow> string list \<Rightarrow> string list" where
  \<comment> \<open>the first argument is \<^verbatim>\<open>platform.machine()\<close>\<close>
  "filter_archs_for_platform machine archs =
     (let current_platform = lower machine in
      if current_platform \<notin> set [''x86_64'', ''amd64''] then archs
      else filter (\<lambda>arch. arch \<notin> set igpu_archs) archs)"

definition filter_major_archs :: "string list \<Rightarrow> string list" where
  "filter_major_archs archs = filter re_match_major archs"

definition valid_archs_str :: "string list \<Rightarrow> string" where
  \<comment> \<open>\<^verbatim>\<open>final_valid_archs_str\<close> of \<^verbatim>\<open>validate_user_archs\<close>\<close>
  "valid_archs_str platform_filtered_archs =
     (let s = join '', '' platform_filtered_archs in if s = [] then ''<None>'' else s)"

definition msg_unsupported :: "string \<Rightarrow> string \<Rightarrow> string" where
  "msg_unsupported arch valid =
     ''Requested architecture '' @ [CHR 0x27] @ arch @ [CHR 0x27]
     @ '' is not supported by this version of nvcc. ''
     @ ''Valid architectures: '' @ valid"

definition msg_below_min :: "string \<Rightarrow> int option \<Rightarrow> string \<Rightarrow> string" where
  "msg_below_min arch min_arch_value valid =
     ''Requested architecture '' @ [CHR 0x27] @ arch @ [CHR 0x27]
     @ '' does not meet minimum requirement ''
     @ ''(sm_'' @ str_opt_int min_arch_value @ ''). Valid architectures: '' @ valid"

definition msg_igpu :: "string \<Rightarrow> string \<Rightarrow> string" where
  "msg_igpu arch valid =
     ''Requested architecture '' @ [CHR 0x27] @ arch @ [CHR 0x27]
     @ '' corresponds to an iGPU not supported ''
     @ ''on this platform (x86_64). Valid architectures: '' @ valid"

fun validate_loop ::
  "string list \<Rightarrow> string list \<Rightarrow> string list \<Rightarrow> int option \<Rightarrow> string \<Rightarrow> string list
   \<Rightarrow> string list \<Rightarrow> string list result" where
  \<comment> \<open>the \<^verbatim>\<open>for\<close> loop of \<^verbatim>\<open>validate_user_archs\<close>; the last but one argument is
      \<^verbatim>\<open>validated_user_archs\<close>\<close>
  "validate_loop nvcc_set min_set plat_set mv valid acc [] = Inr acc"
| "validate_loop nvcc_set min_set plat_set mv valid acc (arch # rest) =
     (if arch \<notin> set nvcc_set then Inl (Die (msg_unsupported arch valid))
      else if arch \<notin> set min_set then Inl (Die (msg_below_min arch mv valid))
      else if arch \<notin> set plat_set then Inl (Die (msg_igpu arch valid))
      else validate_loop nvcc_set min_set plat_set mv valid (acc @ [arch]) rest)"

definition validate_user_archs ::
  "string list \<Rightarrow> string list \<Rightarrow> string list \<Rightarrow> string list \<Rightarrow> int option
   \<Rightarrow> string list result" where
  "validate_user_archs user_archs nvcc_supported_archs min_filtered_archs
                       platform_filtered_archs min_arch_value =
     (if user_archs = [] then Inl (Die ''Requested architecture list is empty.'')
      else validate_loop nvcc_supported_archs min_filtered_archs platform_filtered_archs
             min_arch_value (valid_archs_str platform_filtered_archs) [] user_archs)"

definition ptx_target_base :: "string list \<Rightarrow> string" where
  \<comment> \<open>the choice of the base of the virtual target in \<^verbatim>\<open>generate_sass_ptx_arch_list\<close>,
      on the sorted list, which is not empty: the first identifier from the end that
      \<^verbatim>\<open>[a-zA-Z]$\<close> does not match; when there is none, or when it is the empty string,
      the last identifier\<close>
  "ptx_target_base sorted_archs =
     (let base = (case find (\<lambda>arch. \<not> re_search_letter_end arch) (rev sorted_archs) of
                    None \<Rightarrow> []
                  | Some arch \<Rightarrow> arch)
      in if base = [] then last sorted_archs else base)"

definition generate_sass_ptx_arch_list :: "string list \<Rightarrow> string list result" where
  "generate_sass_ptx_arch_list target_archs =
     (if target_archs = []
      then Inl (Die ''Cannot generate SASS/PTX list from empty target architectures.'')
      else
        (let sorted_archs = sort_archs target_archs;
             sass_targets = map (\<lambda>arch. arch @ ''-real'') sorted_archs;
             ptx_target = ptx_target_base sorted_archs @ ''-virtual''
         in Inr (sass_targets @ [ptx_target])))"

subsection \<open>The program\<close>

text \<open>
  What \<^verbatim>\<open>main\<close> reads from its surroundings: the machine name, the search of
  \<^verbatim>\<open>nvcc\<close> on the path, the resolution of a path, and what running a command gives.
  The arguments are those of the command line, without \<^verbatim>\<open>--verbose\<close>, which only
  changes the logging.
\<close>

record env =
  machine :: string
  which_nvcc :: "string option"
  resolve :: "string \<Rightarrow> string"
  run :: "string list \<Rightarrow> proc_result"

record args =
  requested_archs :: string
  nvcc_path :: "string option"
  min_arch :: "int option"

text \<open>
  What a run of the program shows: the commands it ran, what it printed on standard
  output, the messages it logged as errors, its exit code, and whether it ended on an
  exception that it did not catch.
\<close>

record outcome =
  calls :: "string list list"
  stdout :: string
  errors :: "string list"
  exit_code :: nat
  traceback :: bool

definition get_nvcc_path :: "env \<Rightarrow> string" where
  "get_nvcc_path e =
     resolve e (case which_nvcc e of
                  None \<Rightarrow> ''/usr/local/cuda/bin/nvcc''
                | Some w \<Rightarrow> if w = [] then ''/usr/local/cuda/bin/nvcc'' else w)"

definition main_nvcc_path :: "env \<Rightarrow> args \<Rightarrow> string" where
  \<comment> \<open>lines 238 to 251 of \<^verbatim>\<open>main\<close>; \<^verbatim>\<open>Path.resolve\<close> does not check that the file
      exists, so the handler of \<^verbatim>\<open>FileNotFoundError\<close> there is never entered\<close>
  "main_nvcc_path e a =
     (case nvcc_path a of
        None \<Rightarrow> get_nvcc_path e
      | Some p \<Rightarrow> if p = [] then get_nvcc_path e else resolve e p)"

definition main_targets :: "env \<Rightarrow> args \<Rightarrow> string list result" where
  \<comment> \<open>lines 254 to 273 of \<^verbatim>\<open>main\<close>: the value of \<^verbatim>\<open>target_archs\<close> when line 276 is
      reached, or the failure before it\<close>
  "main_targets e a =
     (let path = main_nvcc_path e a in
      case get_nvcc_archs path (run e [path, ''-code-ls'']) of
        Inl f \<Rightarrow> Inl f
      | Inr nvcc_supported_archs \<Rightarrow>
          (case filter_archs_with_min_arch nvcc_supported_archs (min_arch a) of
             Inl f \<Rightarrow> Inl f
           | Inr min_filtered_archs \<Rightarrow>
               (let platform_filtered_archs =
                      filter_archs_for_platform (machine e) min_filtered_archs;
                    req_lower = lower (requested_archs a)
                in if req_lower = ''all'' then Inr platform_filtered_archs
                   else if req_lower = ''all-major''
                   then Inr (filter_major_archs platform_filtered_archs)
                   else validate_user_archs (parse_requested_archs (requested_archs a))
                          nvcc_supported_archs min_filtered_archs platform_filtered_archs
                          (min_arch a))))"

definition no_target_msg :: "env \<Rightarrow> args \<Rightarrow> string" where
  \<comment> \<open>\<^verbatim>\<open>error_msg\<close> of lines 277 to 280\<close>
  "no_target_msg e a =
     ''No valid CUDA architectures could be determined for request ''
     @ [CHR 0x27] @ requested_archs a @ [CHR 0x27] @ '' ''
     @ ''with current filters (min_arch='' @ str_opt_int (min_arch a)
     @ '', platform='' @ machine e @ '').''"

definition failed :: "string list list \<Rightarrow> failure \<Rightarrow> outcome" where
  "failed cs f =
     (case f of
        Die msg \<Rightarrow> \<lparr>calls = cs, stdout = [], errors = [msg], exit_code = 1, traceback = False\<rparr>
      | AttributeError \<Rightarrow>
          \<lparr>calls = cs, stdout = [], errors = [], exit_code = 1, traceback = True\<rparr>)"

definition main :: "env \<Rightarrow> args \<Rightarrow> outcome" where
  "main e a =
     (if lower (requested_archs a) = ''native''
      then \<lparr>calls = [], stdout = ''native'', errors = [], exit_code = 0, traceback = False\<rparr>
      else
        (let cs = [[main_nvcc_path e a, ''-code-ls'']] in
         case main_targets e a of
           Inl f \<Rightarrow> failed cs f
         | Inr target_archs \<Rightarrow>
             if target_archs = [] then failed cs (Die (no_target_msg e a))
             else
               (case generate_sass_ptx_arch_list target_archs of
                  Inl f \<Rightarrow> failed cs f
                | Inr final_archs_list \<Rightarrow>
                    \<lparr>calls = cs, stdout = join '';'' final_archs_list, errors = [],
                     exit_code = 0, traceback = False\<rparr>)))"

section \<open>Concrete inputs\<close>

definition code_ls_70_90a :: string where
  \<comment> \<open>an output of \<^verbatim>\<open>nvcc -code-ls\<close> with the targets 70, 75, 80, 86, 90 and 90a\<close>
  "code_ls_70_90a =
     ''sm_70'' @ [newline] @ ''sm_75'' @ [newline] @ ''sm_80'' @ [newline]
     @ ''sm_86'' @ [newline] @ ''sm_90'' @ [newline] @ ''sm_90a'' @ [newline]"

definition env_x86 :: env where
  "env_x86 =
     \<lparr>machine = ''x86_64'', which_nvcc = Some ''/usr/bin/nvcc'', resolve = (\<lambda>p. p),
      run = (\<lambda>cmd. Completed code_ls_70_90a)\<rparr>"

definition args_of :: "string \<Rightarrow> int option \<Rightarrow> args" where
  "args_of req m = \<lparr>requested_archs = req, nvcc_path = None, min_arch = m\<rparr>"

section \<open>The words of the specification\<close>

definition numeric_ending_in_0 :: "string \<Rightarrow> bool" where
  \<comment> \<open>the specification's ``entire token is numeric and ends in a literal 0''\<close>
  "numeric_ending_in_0 s = (s \<noteq> [] \<and> list_all is_digit s \<and> last s = CHR ''0'')"

definition arch_id_form :: "string \<Rightarrow> bool" where
  \<comment> \<open>the specification's invariant of an Architecture Identifier: a numeric prefix,
      which is present, and then nothing or a single trailing letter\<close>
  "arch_id_form s =
     (takeWhile is_digit s \<noteq> [] \<and>
      (case dropWhile is_digit s of [] \<Rightarrow> True | [c] \<Rightarrow> is_letter c | _ \<Rightarrow> False))"

definition sm_line_form :: "string \<Rightarrow> bool" where
  \<comment> \<open>the specification's line ``of the form \<^verbatim>\<open>sm_<digits><optional letter>\<close>''\<close>
  "sm_line_form line = (take 3 line = ''sm_'' \<and> arch_id_form (drop 3 line))"

definition code_ls_mixed :: string where
  \<comment> \<open>an output with lines of other forms, surrounding blanks and a repeated target\<close>
  "code_ls_mixed =
     ''  sm_80 '' @ [newline] @ ''compute_80'' @ [newline] @ [newline] @ ''sm_90a''
     @ [newline] @ ''lto_90'' @ [newline] @ ''sm_80'' @ [newline]"

definition trailing_letter :: "string \<Rightarrow> bool" where
  \<comment> \<open>the specification's ``trailing letter suffix'': the identifier ends with a letter\<close>
  "trailing_letter s = (s \<noteq> [] \<and> is_letter (last s))"

definition arch_number :: "string \<Rightarrow> int" where
  \<comment> \<open>the number by which identifiers are ordered: the first component of the sort key\<close>
  "arch_number arch = fst (get_arch_sort_key arch)"

section \<open>Properties\<close>

subsection \<open>The canonical ordering\<close>

lemma inj_get_arch_sort_key: "inj get_arch_sort_key"
  by (rule injI) (auto simp: get_arch_sort_key_def split: option.splits)

text \<open>
  The key is injective, so the sorted list of a set of identifiers does not depend on the
  order in which the set is enumerated.
\<close>

lemma sort_archs_set_eq:
  assumes "distinct xs" "distinct ys" "set xs = set ys"
  shows "sort_archs xs = sort_archs ys"
proof -
  let ?k = get_arch_sort_key
  have inj: "inj_on ?k A" for A
    using inj_get_arch_sort_key by (rule inj_on_subset) simp
  have "map ?k (sort_key ?k xs) = map ?k (sort_key ?k ys)"
  proof (rule sorted_distinct_set_unique)
    show "distinct (map ?k (sort_key ?k xs))" "distinct (map ?k (sort_key ?k ys))"
      using assms by (simp_all add: distinct_map inj)
    show "set (map ?k (sort_key ?k xs)) = set (map ?k (sort_key ?k ys))"
      using assms by simp
  qed simp_all
  then show ?thesis
    unfolding sort_archs_def using inj_get_arch_sort_key by (simp add: inj_map_eq_map)
qed

lemma distinct_parse_code_ls: "distinct (parse_code_ls out)"
  by (simp add: parse_code_ls_def)

lemma filter_archs_for_platform_no_igpu:
  "\<forall>a\<in>set archs. a \<notin> set igpu_archs \<Longrightarrow> filter_archs_for_platform m archs = archs"
  by (simp add: filter_archs_for_platform_def Let_def)

lemma lower_all: "lower ''all'' = ''all''"
  by code_simp

lemma lower_native: "lower ''native'' = ''native''"
  by code_simp

lemma lower_x86_64: "lower ''x86_64'' = ''x86_64''"
  by code_simp

subsection \<open>The scenario of the request \<open>all\<close> with a minimum of 80\<close>

lemma scenario_set_ne:
  "set xs = {''70'', ''75'', ''80'', ''86'', ''90'', ''90a''} \<Longrightarrow> xs \<noteq> []"
proof
  assume "set xs = {''70'', ''75'', ''80'', ''86'', ''90'', ''90a''}" "xs = []"
  then have "''70'' \<in> set ([] :: string list)" by (simp only: insertI1)
  then show False by simp
qed

lemma scenario_distinct: "distinct [''70'', ''75'', ''80'', ''86'', ''90'', ''90a'']"
  by simp

lemma scenario_sort:
  "sort_archs [''70'', ''75'', ''80'', ''86'', ''90'', ''90a'']
   = [''70'', ''75'', ''80'', ''86'', ''90'', ''90a'']"
  by code_simp

lemma scenario_min:
  "filter_archs_with_min_arch [''70'', ''75'', ''80'', ''86'', ''90'', ''90a''] (Some 80)
   = Inr [''80'', ''86'', ''90'', ''90a'']"
  by code_simp

lemma scenario_platform:
  "filter_archs_for_platform m [''80'', ''86'', ''90'', ''90a''] = [''80'', ''86'', ''90'', ''90a'']"
  by (rule filter_archs_for_platform_no_igpu) (simp add: igpu_archs_def)

lemma scenario_generate:
  "generate_sass_ptx_arch_list [''80'', ''86'', ''90'', ''90a'']
   = Inr [''80-real'', ''86-real'', ''90-real'', ''90a-real'', ''90-virtual'']"
  by code_simp

text \<open>
  Claim C3. When the toolchain reports the Supported Set 70, 75, 80, 86, 90, 90a, the
  minimum is 80, the machine is of the desktop x86 family and the request is \<open>all\<close>, the
  target list is 80, 86, 90, 90a, and the program prints
  \<open>80-real;86-real;90-real;90a-real;90-virtual\<close> and ends with exit code 0.
\<close>

theorem scenario_all_min80_x86:
  assumes m: "lower (machine e) \<in> {''x86_64'', ''amd64''}"
    and r: "run e [main_nvcc_path e a, ''-code-ls''] = Completed out"
    and s: "set (parse_code_ls out) = {''70'', ''75'', ''80'', ''86'', ''90'', ''90a''}"
    and q: "requested_archs a = ''all''"
    and n: "min_arch a = Some 80"
  shows "main_targets e a = Inr [''80'', ''86'', ''90'', ''90a''] \<and>
         stdout (main e a) = ''80-real;86-real;90-real;90a-real;90-virtual'' \<and>
         exit_code (main e a) = 0 \<and> errors (main e a) = []"
proof -
  have ne: "parse_code_ls out \<noteq> []"
    using s by (rule scenario_set_ne)
  have "set (parse_code_ls out) = set [''70'', ''75'', ''80'', ''86'', ''90'', ''90a'']"
    by (simp only: s list.set)
  with distinct_parse_code_ls scenario_distinct
  have "sort_archs (parse_code_ls out) = sort_archs [''70'', ''75'', ''80'', ''86'', ''90'', ''90a'']"
    by (rule sort_archs_set_eq)
  then have sup: "get_nvcc_archs (main_nvcc_path e a) (Completed out)
     = Inr [''70'', ''75'', ''80'', ''86'', ''90'', ''90a'']"
    using ne by (simp add: get_nvcc_archs_def scenario_sort)
  have t: "main_targets e a = Inr [''80'', ''86'', ''90'', ''90a'']"
    unfolding main_targets_def Let_def r sup n q lower_all
    by (simp only: sum.case scenario_min scenario_platform) simp
  have nn: "lower ''all'' \<noteq> ''native''"
    by (simp add: lower_all)
  have j: "join '';'' [''80-real'', ''86-real'', ''90-real'', ''90a-real'', ''90-virtual'']
            = ''80-real;86-real;90-real;90a-real;90-virtual''"
    by simp
  have "main e a = \<lparr>calls = [[main_nvcc_path e a, ''-code-ls'']],
                     stdout = ''80-real;86-real;90-real;90a-real;90-virtual'', errors = [],
                     exit_code = 0, traceback = False\<rparr>"
    unfolding main_def Let_def q t
    by (simp only: nn if_False sum.case scenario_generate j) simp
  with t show ?thesis by simp
qed

lemma parse_code_ls_70_90a:
  "set (parse_code_ls code_ls_70_90a) = {''70'', ''75'', ''80'', ''86'', ''90'', ''90a''}"
  by code_simp

theorem scenario_all_min80_x86_witness:
  "lower (machine env_x86) \<in> {''x86_64'', ''amd64''} \<and>
   main_targets env_x86 (args_of ''all'' (Some 80)) = Inr [''80'', ''86'', ''90'', ''90a''] \<and>
   stdout (main env_x86 (args_of ''all'' (Some 80)))
     = ''80-real;86-real;90-real;90a-real;90-virtual'' \<and>
   exit_code (main env_x86 (args_of ''all'' (Some 80))) = 0"
proof -
  have m: "lower (machine env_x86) \<in> {''x86_64'', ''amd64''}"
    by (simp add: env_x86_def lower_x86_64)
  have r: "run env_x86 [main_nvcc_path env_x86 (args_of ''all'' (Some 80)), ''-code-ls'']
             = Completed code_ls_70_90a"
    by (simp add: env_x86_def)
  show ?thesis
    using m scenario_all_min80_x86 [OF m r parse_code_ls_70_90a, of]
    by (simp add: args_of_def)
qed

subsection \<open>The request \<open>native\<close>\<close>

text \<open>
  Claim C6. For the request \<open>native\<close> the program prints exactly \<open>native\<close> and ends with
  exit code 0, whatever the toolchain is, and it runs no command: the capability probe is
  not invoked.
\<close>

theorem native_short_circuit:
  "requested_archs a = ''native'' \<Longrightarrow>
   main e a = \<lparr>calls = [], stdout = ''native'', errors = [], exit_code = 0, traceback = False\<rparr>"
  by (simp add: main_def lower_native)

theorem native_short_circuit_witness:
  "main (env_x86\<lparr>run := (\<lambda>cmd. FileNotFoundError)\<rparr>) (args_of ''native'' None)
   = \<lparr>calls = [], stdout = ''native'', errors = [], exit_code = 0, traceback = False\<rparr>"
  using native_short_circuit [of "args_of ''native'' None" "env_x86\<lparr>run := (\<lambda>cmd. FileNotFoundError)\<rparr>"]
  by (simp add: args_of_def)

subsection \<open>The platform filter\<close>

text \<open>
  Claim C4. On a machine of the desktop x86 family (a machine name that is \<open>x86_64\<close> or
  \<open>amd64\<close> in lower case) the platform filter removes exactly the identifiers 72, 87, 101
  and 101a from any sequence and keeps the others in their order; on any other machine it
  returns the sequence as it is.
\<close>

theorem platform_filter:
  "(lower m \<in> {''x86_64'', ''amd64''} \<longrightarrow>
      filter_archs_for_platform m archs
        = filter (\<lambda>a. a \<notin> {''72'', ''87'', ''101'', ''101a''}) archs) \<and>
   (lower m \<notin> {''x86_64'', ''amd64''} \<longrightarrow> filter_archs_for_platform m archs = archs)"
  by (simp add: filter_archs_for_platform_def igpu_archs_def Let_def)

lemma lower_aarch64: "lower ''aarch64'' = ''aarch64''"
  by code_simp

lemma lower_AMD64: "lower ''AMD64'' = ''amd64''"
  by code_simp

theorem platform_filter_witness:
  "filter_archs_for_platform ''AMD64'' [''72'', ''80'', ''101a'', ''87'', ''101'', ''90'', ''72'']
     = [''80'', ''90''] \<and>
   filter_archs_for_platform ''aarch64'' [''72'', ''80'', ''101a'', ''87'', ''101'', ''90'', ''72'']
     = [''72'', ''80'', ''101a'', ''87'', ''101'', ''90'', ''72'']"
  using platform_filter [of "''AMD64''" "[''72'', ''80'', ''101a'', ''87'', ''101'', ''90'', ''72'']"]
    platform_filter [of "''aarch64''" "[''72'', ''80'', ''101a'', ''87'', ''101'', ''90'', ''72'']"]
  by (simp add: lower_aarch64 lower_AMD64)

subsection \<open>The major-only filter\<close>

text \<open>
  Claim C5, as stated: the major-only filter keeps exactly the identifiers whose entire
  token is numeric and ends in a literal 0. It fails on the identifier \<open>0\<close>, which is
  numeric and ends in 0 and which the filter drops: the pattern \<^verbatim>\<open>^\d+0$\<close> asks for a
  digit before the final 0.
\<close>

theorem major_filter_counterexample:
  "numeric_ending_in_0 ''0'' \<and> filter_major_archs [''0''] = []"
  by (simp add: numeric_ending_in_0_def is_digit_def filter_major_archs_def re_match_major_def
      before_eol_def newline_def)

lemma re_match_major_no_eol:
  "s = [] \<or> last s \<noteq> newline \<Longrightarrow>
   re_match_major s = (2 \<le> length s \<and> numeric_ending_in_0 s)"
  by (auto simp: re_match_major_def before_eol_def numeric_ending_in_0_def)

text \<open>
  Claim C5, amended. For every input sequence in which no identifier ends with a newline
  character, the major-only filter keeps exactly the identifiers of two characters or more
  whose entire token is numeric and ends in a literal 0, in their order; its output is a
  subsequence of its input in which every element is all digits and ends in 0.
\<close>

theorem major_filter:
  assumes "\<forall>a\<in>set archs. a = [] \<or> last a \<noteq> newline"
  shows "filter_major_archs archs = filter (\<lambda>a. 2 \<le> length a \<and> numeric_ending_in_0 a) archs \<and>
         set (filter_major_archs archs) \<subseteq> set archs \<and>
         subseq (filter_major_archs archs) archs \<and>
         (\<forall>a\<in>set (filter_major_archs archs). numeric_ending_in_0 a)"
proof -
  have eq: "filter_major_archs archs = filter (\<lambda>a. 2 \<le> length a \<and> numeric_ending_in_0 a) archs"
    unfolding filter_major_archs_def
    by (rule filter_cong) (use assms in \<open>simp_all add: re_match_major_no_eol\<close>)
  then show ?thesis by simp
qed

theorem major_filter_witness:
  "filter_major_archs [''0'', ''80'', ''75'', ''100'', ''90a'', ''120'', '''', ''a0'']
     = [''80'', ''100'', ''120'']"
  using major_filter [of "[''0'', ''80'', ''75'', ''100'', ''90a'', ''120'', '''', ''a0'']"]
  by (simp add: numeric_ending_in_0_def is_digit_def newline_def)

text \<open>
  The pattern ends in \<^verbatim>\<open>$\<close>, which also matches before a final newline: an identifier
  such as 80 followed by a newline is kept. No identifier of the program ends so, since
  the lines of the toolchain are stripped.
\<close>

lemma major_filter_final_newline:
  "filter_major_archs [''80'' @ [newline]] = [''80'' @ [newline]]"
  by (simp add: filter_major_archs_def re_match_major_def before_eol_def is_digit_def)

subsection \<open>An empty target list\<close>

text \<open>
  Claim C7. Whenever the dispatch on the request yields an empty target list, the program
  ends with exit code 1, prints nothing, and logs one error, which names the request as
  it was given, the value of the minimum-version filter and the machine.
\<close>

theorem no_target_is_fatal:
  assumes "main_targets e a = Inr []" and "lower (requested_archs a) \<noteq> ''native''"
  shows "main e a =
           \<lparr>calls = [[main_nvcc_path e a, ''-code-ls'']], stdout = [],
            errors = [''No valid CUDA architectures could be determined for request ''
                      @ [CHR 0x27] @ requested_archs a @ [CHR 0x27]
                      @ '' with current filters (min_arch='' @ str_opt_int (min_arch a)
                      @ '', platform='' @ machine e @ '').''],
            exit_code = 1, traceback = False\<rparr>"
  using assms by (simp add: main_def failed_def no_target_msg_def)

lemma no_target_example: "main_targets env_x86 (args_of ''all'' (Some 100)) = Inr []"
  by code_simp

theorem no_target_is_fatal_witness:
  "main env_x86 (args_of ''all'' (Some 100)) =
     \<lparr>calls = [[''/usr/bin/nvcc'', ''-code-ls'']], stdout = [],
      errors = [''No valid CUDA architectures could be determined for request ''
                @ [CHR 0x27] @ ''all'' @ [CHR 0x27]
                @ '' with current filters (min_arch=100, platform=x86_64).''],
      exit_code = 1, traceback = False\<rparr>"
proof -
  have n: "lower (requested_archs (args_of ''all'' (Some 100))) \<noteq> ''native''"
    by (simp add: args_of_def lower_all)
  have p: "main_nvcc_path env_x86 (args_of ''all'' (Some 100)) = ''/usr/bin/nvcc''"
    by (simp add: main_nvcc_path_def get_nvcc_path_def env_x86_def args_of_def)
  have s: "str_opt_int (Some 100) = ''100''"
    by code_simp
  show ?thesis
    using no_target_is_fatal [OF no_target_example n]
    unfolding p by (simp add: args_of_def env_x86_def s)
qed

subsection \<open>The capability prober\<close>

text \<open>
  Claim C8, as stated: every identifier of the Supported Set has a numeric prefix and at
  most one trailing letter, and lines that are not of the form
  \<^verbatim>\<open>sm_<digits><optional letter>\<close> are ignored. The prober tests the prefix \<^verbatim>\<open>sm_\<close>
  only: the line \<^verbatim>\<open>sm_abc\<close> is not of that form and yields the identifier \<open>abc\<close>, which
  has no numeric prefix.
\<close>

theorem prober_identifier_form_counterexample:
  "\<not> sm_line_form ''sm_abc'' \<and>
   get_nvcc_archs ''nvcc'' (Completed ''sm_abc'') = Inr [''abc''] \<and>
   \<not> arch_id_form ''abc''"
  by code_simp

lemma int_of_digits_nonneg_aux:
  "list_all is_digit s \<Longrightarrow> 0 \<le> n \<Longrightarrow> 0 \<le> foldl (\<lambda>n c. 10 * n + digit_val c) n s"
proof (induction s arbitrary: n)
  case Nil
  then show ?case by simp
next
  case (Cons c s)
  from Cons.prems have "0 \<le> digit_val c"
    by (simp add: is_digit_def digit_val_def less_eq_char_def)
  with Cons show ?case by simp
qed

lemma sort_key_nonneg: "0 \<le> fst (get_arch_sort_key a)"
proof (cases "re_match_digits a")
  case None
  then show ?thesis by (simp add: get_arch_sort_key_def)
next
  case (Some d)
  then have "d = takeWhile is_digit a"
    by (auto simp: re_match_digits_def Let_def split: if_splits)
  then have "list_all is_digit d"
    by (auto simp: list_all_iff dest: set_takeWhileD)
  then have "0 \<le> int_of_digits d"
    unfolding int_of_digits_def by (rule int_of_digits_nonneg_aux) simp
  with Some show ?thesis by (simp add: get_arch_sort_key_def)
qed

lemma set_get_nvcc_archs:
  "get_nvcc_archs p (Completed out) = Inr archs \<Longrightarrow>
   set archs = set (parse_code_ls out) \<and> archs = sort_archs (parse_code_ls out)"
  by (auto simp: get_nvcc_archs_def Let_def sort_archs_def split: if_splits)

text \<open>
  Claim C8, amended. The capability prober ignores every line of the toolchain output
  that, stripped of surrounding whitespace, does not start with \<^verbatim>\<open>sm_\<close>, and yields the
  rest of every line that does. So, whenever every line that starts with \<^verbatim>\<open>sm_\<close> is of
  the form \<^verbatim>\<open>sm_<digits><optional letter>\<close>, every identifier of the Supported Set has
  a numeric prefix, which is present and is a non-negative integer, and at most a single
  trailing letter.
\<close>

theorem prober_identifiers:
  assumes "get_nvcc_archs p (Completed out) = Inr archs"
  shows "set archs = {drop 3 line | line. line \<in> set (code_ls_lines out) \<and> take 3 line = ''sm_''} \<and>
         ((\<forall>line\<in>set (code_ls_lines out). take 3 line = ''sm_'' \<longrightarrow> sm_line_form line) \<longrightarrow>
          (\<forall>a\<in>set archs. arch_id_form a \<and> 0 \<le> fst (get_arch_sort_key a)))"
proof -
  have "set archs = set (parse_code_ls out)"
    using assms by (simp add: set_get_nvcc_archs)
  then have s: "set archs = {drop 3 line | line. line \<in> set (code_ls_lines out) \<and> take 3 line = ''sm_''}"
    unfolding parse_code_ls_def by auto
  show ?thesis
    unfolding s by (auto simp: sm_line_form_def sort_key_nonneg)
qed

lemma mixed_lines_form:
  "\<forall>line\<in>set (code_ls_lines code_ls_mixed). take 3 line = ''sm_'' \<longrightarrow> sm_line_form line"
  by code_simp

lemma mixed_archs: "get_nvcc_archs ''nvcc'' (Completed code_ls_mixed) = Inr [''80'', ''90a'']"
  by code_simp

theorem prober_identifiers_witness:
  "get_nvcc_archs ''nvcc'' (Completed code_ls_mixed) = Inr [''80'', ''90a''] \<and>
   arch_id_form ''80'' \<and> arch_id_form ''90a''"
  using prober_identifiers [OF mixed_archs] mixed_lines_form mixed_archs
  by simp

subsection \<open>The validator of an explicit list\<close>

lemma validate_loop_find:
  "validate_loop S M P mv v acc us =
     (case find (\<lambda>a. a \<notin> set S \<or> a \<notin> set M \<or> a \<notin> set P) us of
        None \<Rightarrow> Inr (acc @ us)
      | Some a \<Rightarrow>
          Inl (Die (if a \<notin> set S then msg_unsupported a v
                    else if a \<notin> set M then msg_below_min a mv v
                    else msg_igpu a v)))"
  by (induction us arbitrary: acc) (auto split: option.splits)

lemma join_nonempty: "xs \<noteq> [] \<Longrightarrow> [] \<notin> set xs \<Longrightarrow> join sep xs \<noteq> []"
  by (induction sep xs rule: join.induct) auto

lemma valid_archs_str_cases:
  "(P = [] \<longrightarrow> valid_archs_str P = ''<None>'') \<and>
   (P \<noteq> [] \<and> [] \<notin> set P \<longrightarrow> valid_archs_str P = join '', '' P)"
  by (auto simp: valid_archs_str_def Let_def join_nonempty)

lemma msgs_distinct:
  "msg_unsupported a v \<noteq> msg_below_min a mv v \<and>
   msg_unsupported a v \<noteq> msg_igpu a v \<and>
   msg_below_min a mv v \<noteq> msg_igpu a v"
  by (simp add: msg_unsupported_def msg_below_min_def msg_igpu_def)

lemma msgs_guidance:
  "suffix (''Valid architectures: '' @ v) (msg_unsupported a v) \<and>
   suffix (''Valid architectures: '' @ v) (msg_below_min a mv v) \<and>
   suffix (''Valid architectures: '' @ v) (msg_igpu a v)"
proof (intro conjI)
  show "suffix (''Valid architectures: '' @ v) (msg_unsupported a v)"
    by (rule suffixI [where zs = "''Requested architecture '' @ [CHR 0x27] @ a @ [CHR 0x27]
          @ '' is not supported by this version of nvcc. ''"])
       (simp add: msg_unsupported_def)
  show "suffix (''Valid architectures: '' @ v) (msg_below_min a mv v)"
    by (rule suffixI [where zs = "''Requested architecture '' @ [CHR 0x27] @ a @ [CHR 0x27]
          @ '' does not meet minimum requirement (sm_'' @ str_opt_int mv @ ''). ''"])
       (simp add: msg_below_min_def)
  show "suffix (''Valid architectures: '' @ v) (msg_igpu a v)"
    by (rule suffixI [where zs = "''Requested architecture '' @ [CHR 0x27] @ a @ [CHR 0x27]
          @ '' corresponds to an iGPU not supported on this platform (x86_64). ''"])
       (simp add: msg_igpu_def)
qed

text \<open>
  Claim C2. For a list of requested tokens that is not empty, the validator takes the tokens
  in their order and stops at the first one that is missing from the Supported Set, from
  the minimum-filtered set or from the platform-filtered set; it checks the three sets
  in that order and dies with the message of the first check that fails. The three
  messages for a token differ from each other, and each of them ends with the list of the
  platform-filtered architectures, which is the marker \<open><None>\<close> when that set is empty.
  When no token fails, the tokens are returned as they are.
\<close>

theorem validate_layers:
  assumes "user_archs \<noteq> []"
  shows "validate_user_archs user_archs S M P mv =
           (case find (\<lambda>a. a \<notin> set S \<or> a \<notin> set M \<or> a \<notin> set P) user_archs of
              None \<Rightarrow> Inr user_archs
            | Some a \<Rightarrow>
                Inl (Die (if a \<notin> set S then msg_unsupported a (valid_archs_str P)
                          else if a \<notin> set M then msg_below_min a mv (valid_archs_str P)
                          else msg_igpu a (valid_archs_str P)))) \<and>
         msg_unsupported a v \<noteq> msg_below_min a mv v \<and>
         msg_unsupported a v \<noteq> msg_igpu a v \<and>
         msg_below_min a mv v \<noteq> msg_igpu a v \<and>
         suffix (''Valid architectures: '' @ v) (msg_unsupported a v) \<and>
         suffix (''Valid architectures: '' @ v) (msg_below_min a mv v) \<and>
         suffix (''Valid architectures: '' @ v) (msg_igpu a v) \<and>
         (P = [] \<longrightarrow> valid_archs_str P = ''<None>'') \<and>
         (P \<noteq> [] \<and> [] \<notin> set P \<longrightarrow> valid_archs_str P = join '', '' P)"
proof -
  have "validate_user_archs user_archs S M P mv =
          validate_loop S M P mv (valid_archs_str P) [] user_archs"
    using assms by (simp add: validate_user_archs_def)
  then have run: "validate_user_archs user_archs S M P mv =
           (case find (\<lambda>a. a \<notin> set S \<or> a \<notin> set M \<or> a \<notin> set P) user_archs of
              None \<Rightarrow> Inr user_archs
            | Some a \<Rightarrow>
                Inl (Die (if a \<notin> set S then msg_unsupported a (valid_archs_str P)
                          else if a \<notin> set M then msg_below_min a mv (valid_archs_str P)
                          else msg_igpu a (valid_archs_str P))))"
    by (simp only: validate_loop_find append_Nil)
  from run msgs_distinct [of a v mv] msgs_guidance [of v a mv] valid_archs_str_cases [of P]
  show ?thesis
    by blast
qed

theorem validate_layers_witness:
  "validate_user_archs [''80'', ''72'', ''200''] [''60'', ''72'', ''80'', ''86''] [''72'', ''80'', ''86'']
     [''80'', ''86''] (Some 70)
   = Inl (Die (''Requested architecture '' @ [CHR 0x27] @ ''72'' @ [CHR 0x27]
               @ '' corresponds to an iGPU not supported on this platform (x86_64). ''
               @ ''Valid architectures: 80, 86''))"
proof -
  have f: "find (\<lambda>a. a \<notin> set [''60'', ''72'', ''80'', ''86''] \<or> a \<notin> set [''72'', ''80'', ''86'']
                      \<or> a \<notin> set [''80'', ''86'']) [''80'', ''72'', ''200''] = Some ''72''"
    by simp
  have v: "valid_archs_str [''80'', ''86''] = ''80, 86''"
    by (simp add: valid_archs_str_def)
  have "validate_user_archs [''80'', ''72'', ''200''] [''60'', ''72'', ''80'', ''86'']
          [''72'', ''80'', ''86''] [''80'', ''86''] (Some 70)
        = Inl (Die (msg_igpu ''72'' ''80, 86''))"
    using validate_layers [of "[''80'', ''72'', ''200'']" "[''60'', ''72'', ''80'', ''86'']"
        "[''72'', ''80'', ''86'']" "[''80'', ''86'']" "Some 70"]
    unfolding f v by simp
  then show ?thesis
    by (simp add: msg_igpu_def)
qed

subsection \<open>The dispatch on the request\<close>

lemma filter_dropWhile_disjoint:
  "(\<And>x. Q x \<Longrightarrow> \<not> P x) \<Longrightarrow> filter P (dropWhile Q xs) = filter P xs"
  by (induction xs) auto

lemma concat_re_split_seps:
  "concat (re_split_seps cur s) = cur @ filter (\<lambda>c. \<not> is_sep c) s"
  by (induction cur s rule: re_split_seps.induct) (simp_all add: filter_dropWhile_disjoint)

lemma filter_strip: "filter (\<lambda>c. \<not> is_sep c) (strip s) = filter (\<lambda>c. \<not> is_sep c) s"
proof -
  have d: "filter (\<lambda>c. \<not> is_sep c) (dropWhile is_space xs) = filter (\<lambda>c. \<not> is_sep c) xs" for xs
    by (rule filter_dropWhile_disjoint) (simp add: is_sep_def)
  have "filter (\<lambda>c. \<not> is_sep c) (strip s)
          = rev (filter (\<lambda>c. \<not> is_sep c) (dropWhile is_space (rev (dropWhile is_space s))))"
    by (simp only: strip_def rev_filter)
  also have "\<dots> = rev (filter (\<lambda>c. \<not> is_sep c) (rev (dropWhile is_space s)))"
    by (simp only: d)
  also have "\<dots> = filter (\<lambda>c. \<not> is_sep c) (dropWhile is_space s)"
    by (simp only: rev_filter rev_rev_ident)
  finally show ?thesis
    by (simp only: d)
qed

lemma concat_filter_nonempty: "concat (filter (\<lambda>a. a \<noteq> []) xs) = concat xs"
  by (induction xs) auto

lemma concat_parse_requested_archs:
  "concat (parse_requested_archs r) = filter (\<lambda>c. \<not> is_sep c) r"
  by (simp add: parse_requested_archs_def concat_filter_nonempty concat_re_split_seps filter_strip)

lemma re_split_seps_no_sep:
  "\<forall>c\<in>set cur. \<not> is_sep c \<Longrightarrow> t \<in> set (re_split_seps cur s) \<Longrightarrow> c \<in> set t \<Longrightarrow> \<not> is_sep c"
proof (induction cur s arbitrary: t c rule: re_split_seps.induct)
  case (1 cur)
  then show ?case by simp
next
  case (2 cur d ds)
  show ?case
  proof (cases "is_sep d")
    case True
    with "2.prems"(2) have "t = cur \<or> t \<in> set (re_split_seps [] (dropWhile is_sep ds))"
      by simp
    then show ?thesis
    proof
      assume "t = cur"
      with "2.prems" show ?thesis by simp
    next
      assume "t \<in> set (re_split_seps [] (dropWhile is_sep ds))"
      with "2.IH"(1) [OF True _ _ "2.prems"(3)] show ?thesis by simp
    qed
  next
    case False
    with "2.prems"(2) have m: "t \<in> set (re_split_seps (cur @ [d]) ds)"
      by simp
    have "\<forall>c\<in>set (cur @ [d]). \<not> is_sep c"
      using False "2.prems"(1) by simp
    from "2.IH"(2) [OF False this m "2.prems"(3)] show ?thesis .
  qed
qed

lemma parse_requested_archs_tokens:
  "t \<in> set (parse_requested_archs r) \<Longrightarrow> t \<noteq> [] \<and> (\<forall>c\<in>set t. \<not> is_sep c)"
proof -
  assume a: "t \<in> set (parse_requested_archs r)"
  then have ne: "t \<noteq> []" and m: "t \<in> set (re_split_seps [] (strip r))"
    by (simp_all add: parse_requested_archs_def split: if_splits)
  have "\<not> is_sep c" if "c \<in> set t" for c
    by (rule re_split_seps_no_sep [OF _ m that]) simp
  with ne show ?thesis by simp
qed

lemma lower_all_major: "lower ''all-major'' = ''all-major''"
  by code_simp

lemma main_nvcc_path_request [simp]:
  "main_nvcc_path e (a\<lparr>requested_archs := r\<rparr>) = main_nvcc_path e a"
  by (simp add: main_nvcc_path_def)

lemma main_targets_all:
  "lower (requested_archs a) = ''all'' \<Longrightarrow>
   main_targets e a = main_targets e (a\<lparr>requested_archs := ''all''\<rparr>)"
  by (simp add: main_targets_def Let_def lower_all split: sum.splits)

lemma main_targets_all_major:
  "lower (requested_archs a) = ''all-major'' \<Longrightarrow>
   main_targets e a = main_targets e (a\<lparr>requested_archs := ''all-major''\<rparr>)"
  by (simp add: main_targets_def Let_def lower_all_major split: sum.splits)

lemma main_same_targets:
  assumes "main_targets e a = main_targets e a'"
    and "main_nvcc_path e a = main_nvcc_path e a'"
    and "lower (requested_archs a) \<noteq> ''native''" and "lower (requested_archs a') \<noteq> ''native''"
  shows "stdout (main e a) = stdout (main e a') \<and> exit_code (main e a) = exit_code (main e a') \<and>
         calls (main e a) = calls (main e a')"
  using assms by (simp add: main_def Let_def failed_def split: sum.splits failure.splits)

lemma main_targets_explicit:
  assumes "lower (requested_archs a) \<notin> {''native'', ''all'', ''all-major''}"
    and "get_nvcc_archs (main_nvcc_path e a) (run e [main_nvcc_path e a, ''-code-ls'']) = Inr S"
    and "filter_archs_with_min_arch S (min_arch a) = Inr M"
  shows "main_targets e a =
           validate_user_archs (parse_requested_archs (requested_archs a)) S M
             (filter_archs_for_platform (machine e) M) (min_arch a)"
  using assms by (simp add: main_targets_def Let_def)

text \<open>
  Claim C10. The dispatch on the request is case-insensitive: a request whose lower-case
  form is \<open>native\<close>, \<open>all\<close> or \<open>all-major\<close> is treated as that mode (the same target list,
  the same standard output, exit code and commands). For any other request the tokens
  are those of the request string as it was given: the validator receives
  \<^verbatim>\<open>parse_requested_archs\<close> of the original string, whose tokens put together are the
  characters of the request that are not separators, unchanged, and they are compared as
  they are with the supported sets.
\<close>

theorem dispatch_case_insensitive:
  "(lower (requested_archs a) = ''native'' \<longrightarrow>
      main e a = main e (a\<lparr>requested_archs := ''native''\<rparr>)) \<and>
   (lower (requested_archs a) = ''all'' \<longrightarrow>
      main_targets e a = main_targets e (a\<lparr>requested_archs := ''all''\<rparr>) \<and>
      stdout (main e a) = stdout (main e (a\<lparr>requested_archs := ''all''\<rparr>)) \<and>
      exit_code (main e a) = exit_code (main e (a\<lparr>requested_archs := ''all''\<rparr>)) \<and>
      calls (main e a) = calls (main e (a\<lparr>requested_archs := ''all''\<rparr>))) \<and>
   (lower (requested_archs a) = ''all-major'' \<longrightarrow>
      main_targets e a = main_targets e (a\<lparr>requested_archs := ''all-major''\<rparr>) \<and>
      stdout (main e a) = stdout (main e (a\<lparr>requested_archs := ''all-major''\<rparr>)) \<and>
      exit_code (main e a) = exit_code (main e (a\<lparr>requested_archs := ''all-major''\<rparr>)) \<and>
      calls (main e a) = calls (main e (a\<lparr>requested_archs := ''all-major''\<rparr>))) \<and>
   (lower (requested_archs a) \<notin> {''native'', ''all'', ''all-major''} \<longrightarrow>
      (\<forall>S M. get_nvcc_archs (main_nvcc_path e a) (run e [main_nvcc_path e a, ''-code-ls'']) = Inr S \<longrightarrow>
             filter_archs_with_min_arch S (min_arch a) = Inr M \<longrightarrow>
             main_targets e a =
               validate_user_archs (parse_requested_archs (requested_archs a)) S M
                 (filter_archs_for_platform (machine e) M) (min_arch a))) \<and>
   concat (parse_requested_archs (requested_archs a))
     = filter (\<lambda>c. \<not> is_sep c) (requested_archs a)"
proof (intro conjI impI allI)
  assume "lower (requested_archs a) = ''native''"
  then show "main e a = main e (a\<lparr>requested_archs := ''native''\<rparr>)"
    by (simp add: main_def lower_native)
next
  assume l: "lower (requested_archs a) = ''all''"
  then show t: "main_targets e a = main_targets e (a\<lparr>requested_archs := ''all''\<rparr>)"
    by (rule main_targets_all)
  have "stdout (main e a) = stdout (main e (a\<lparr>requested_archs := ''all''\<rparr>)) \<and>
        exit_code (main e a) = exit_code (main e (a\<lparr>requested_archs := ''all''\<rparr>)) \<and>
        calls (main e a) = calls (main e (a\<lparr>requested_archs := ''all''\<rparr>))"
    using t by (rule main_same_targets) (simp_all add: l lower_all)
  then show "stdout (main e a) = stdout (main e (a\<lparr>requested_archs := ''all''\<rparr>))"
    and "exit_code (main e a) = exit_code (main e (a\<lparr>requested_archs := ''all''\<rparr>))"
    and "calls (main e a) = calls (main e (a\<lparr>requested_archs := ''all''\<rparr>))"
    by simp_all
next
  assume l: "lower (requested_archs a) = ''all-major''"
  then show t: "main_targets e a = main_targets e (a\<lparr>requested_archs := ''all-major''\<rparr>)"
    by (rule main_targets_all_major)
  have "stdout (main e a) = stdout (main e (a\<lparr>requested_archs := ''all-major''\<rparr>)) \<and>
        exit_code (main e a) = exit_code (main e (a\<lparr>requested_archs := ''all-major''\<rparr>)) \<and>
        calls (main e a) = calls (main e (a\<lparr>requested_archs := ''all-major''\<rparr>))"
    using t by (rule main_same_targets) (simp_all add: l lower_all_major)
  then show "stdout (main e a) = stdout (main e (a\<lparr>requested_archs := ''all-major''\<rparr>))"
    and "exit_code (main e a) = exit_code (main e (a\<lparr>requested_archs := ''all-major''\<rparr>))"
    and "calls (main e a) = calls (main e (a\<lparr>requested_archs := ''all-major''\<rparr>))"
    by simp_all
next
  fix S M
  assume "lower (requested_archs a) \<notin> {''native'', ''all'', ''all-major''}"
    and "get_nvcc_archs (main_nvcc_path e a) (run e [main_nvcc_path e a, ''-code-ls'']) = Inr S"
    and "filter_archs_with_min_arch S (min_arch a) = Inr M"
  then show "main_targets e a =
               validate_user_archs (parse_requested_archs (requested_archs a)) S M
                 (filter_archs_for_platform (machine e) M) (min_arch a)"
    by (rule main_targets_explicit)
next
  show "concat (parse_requested_archs (requested_archs a))
          = filter (\<lambda>c. \<not> is_sep c) (requested_archs a)"
    by (rule concat_parse_requested_archs)
qed

lemma lower_examples:
  "lower ''NATIVE'' = ''native''" "lower ''All'' = ''all''" "lower ''ALL-Major'' = ''all-major''"
  "lower ''90A, 80'' = ''90a, 80''"
  by code_simp+

lemma dispatch_native: "main env_x86 (args_of ''native'' None)
     = \<lparr>calls = [], stdout = ''native'', errors = [], exit_code = 0, traceback = False\<rparr>"
  by (simp add: main_def args_of_def lower_native)

lemma dispatch_all: "main_targets env_x86 (args_of ''all'' None) = Inr [''70'', ''75'', ''80'', ''86'', ''90'', ''90a'']"
  by code_simp

lemma dispatch_all_major: "main_targets env_x86 (args_of ''all-major'' None) = Inr [''70'', ''80'', ''90'']"
  by code_simp


lemma dispatch_probe: "get_nvcc_archs (main_nvcc_path env_x86 (args_of ''90A, 80'' None))
     (run env_x86 [main_nvcc_path env_x86 (args_of ''90A, 80'' None), ''-code-ls''])
   = Inr [''70'', ''75'', ''80'', ''86'', ''90'', ''90a'']"
  by code_simp

lemma dispatch_min: "filter_archs_with_min_arch [''70'', ''75'', ''80'', ''86'', ''90'', ''90a''] None
   = Inr [''70'', ''75'', ''80'', ''86'', ''90'', ''90a'']"
  by (simp add: filter_archs_with_min_arch_def)

lemma dispatch_validate: "validate_user_archs (parse_requested_archs ''90A, 80'')
     [''70'', ''75'', ''80'', ''86'', ''90'', ''90a''] [''70'', ''75'', ''80'', ''86'', ''90'', ''90a'']
     (filter_archs_for_platform ''x86_64'' [''70'', ''75'', ''80'', ''86'', ''90'', ''90a'']) None
   = Inl (Die (msg_unsupported ''90A'' ''70, 75, 80, 86, 90, 90a''))"
  by code_simp


lemma args_of_sel:
  "requested_archs (args_of r m) = r" "min_arch (args_of r m) = m" "nvcc_path (args_of r m) = None"
  "(args_of r m)\<lparr>requested_archs := r'\<rparr> = args_of r' m"
  by (simp_all add: args_of_def)

theorem dispatch_case_insensitive_witness:
  "main env_x86 (args_of ''NATIVE'' None)
     = \<lparr>calls = [], stdout = ''native'', errors = [], exit_code = 0, traceback = False\<rparr> \<and>
   main_targets env_x86 (args_of ''All'' None) = Inr [''70'', ''75'', ''80'', ''86'', ''90'', ''90a''] \<and>
   main_targets env_x86 (args_of ''ALL-Major'' None) = Inr [''70'', ''80'', ''90''] \<and>
   main_targets env_x86 (args_of ''90A, 80'' None)
     = Inl (Die (msg_unsupported ''90A'' ''70, 75, 80, 86, 90, 90a''))"
proof (intro conjI)
  have "lower (requested_archs (args_of ''NATIVE'' None)) = ''native''"
    by (simp only: args_of_sel lower_examples)
  with dispatch_case_insensitive [of "args_of ''NATIVE'' None" env_x86, THEN conjunct1]
  have "main env_x86 (args_of ''NATIVE'' None)
          = main env_x86 ((args_of ''NATIVE'' None)\<lparr>requested_archs := ''native''\<rparr>)"
    by (rule mp)
  then show "main env_x86 (args_of ''NATIVE'' None)
     = \<lparr>calls = [], stdout = ''native'', errors = [], exit_code = 0, traceback = False\<rparr>"
    by (simp only: args_of_sel dispatch_native)
next
  have "lower (requested_archs (args_of ''All'' None)) = ''all''"
    by (simp only: args_of_sel lower_examples)
  with dispatch_case_insensitive [of "args_of ''All'' None" env_x86,
      THEN conjunct2, THEN conjunct1]
  have "main_targets env_x86 (args_of ''All'' None)
          = main_targets env_x86 ((args_of ''All'' None)\<lparr>requested_archs := ''all''\<rparr>)"
    by (rule mp [THEN conjunct1])
  then show "main_targets env_x86 (args_of ''All'' None)
               = Inr [''70'', ''75'', ''80'', ''86'', ''90'', ''90a'']"
    by (simp only: args_of_sel dispatch_all)
next
  have "lower (requested_archs (args_of ''ALL-Major'' None)) = ''all-major''"
    by (simp only: args_of_sel lower_examples)
  with dispatch_case_insensitive [of "args_of ''ALL-Major'' None" env_x86,
      THEN conjunct2, THEN conjunct2, THEN conjunct1]
  have "main_targets env_x86 (args_of ''ALL-Major'' None)
          = main_targets env_x86 ((args_of ''ALL-Major'' None)\<lparr>requested_archs := ''all-major''\<rparr>)"
    by (rule mp [THEN conjunct1])
  then show "main_targets env_x86 (args_of ''ALL-Major'' None) = Inr [''70'', ''80'', ''90'']"
    by (simp only: args_of_sel dispatch_all_major)
next
  have n: "lower (requested_archs (args_of ''90A, 80'' None)) \<notin> {''native'', ''all'', ''all-major''}"
    by (simp add: args_of_sel lower_examples)
  have f: "filter_archs_with_min_arch [''70'', ''75'', ''80'', ''86'', ''90'', ''90a'']
             (min_arch (args_of ''90A, 80'' None))
           = Inr [''70'', ''75'', ''80'', ''86'', ''90'', ''90a'']"
    by (simp only: args_of_sel dispatch_min)
  have m: "machine env_x86 = ''x86_64''"
    by (simp add: env_x86_def)
  from dispatch_case_insensitive [of "args_of ''90A, 80'' None" env_x86,
      THEN conjunct2, THEN conjunct2, THEN conjunct2, THEN conjunct1, THEN mp, OF n,
      THEN spec, THEN spec, THEN mp, OF dispatch_probe, THEN mp, OF f]
  show "main_targets env_x86 (args_of ''90A, 80'' None)
          = Inl (Die (msg_unsupported ''90A'' ''70, 75, 80, 86, 90, 90a''))"
    by (simp only: args_of_sel m dispatch_validate)
qed

subsection \<open>The target formatter\<close>

lemma find_append_cases:
  "find P (xs @ ys) = (case find P xs of None \<Rightarrow> find P ys | Some x \<Rightarrow> Some x)"
  by (induction xs) auto

lemma find_rev_Some:
  "find P (rev S) = Some b \<Longrightarrow> \<exists>ys zs. S = ys @ b # zs \<and> P b \<and> (\<forall>z\<in>set zs. \<not> P z)"
proof (induction S)
  case Nil
  then show ?case by simp
next
  case (Cons x S)
  show ?case
  proof (cases "find P (rev S)")
    case None
    with Cons.prems have "P x" and "b = x"
      by (auto simp: find_append_cases split: if_splits)
    moreover from None have "\<forall>z\<in>set S. \<not> P z"
      by (simp add: find_None_iff)
    ultimately have "x # S = [] @ b # S \<and> P b \<and> (\<forall>z\<in>set S. \<not> P z)"
      by simp
    then show ?thesis by blast
  next
    case (Some b')
    with Cons.prems have "b' = b"
      by (simp add: find_append_cases)
    with Some Cons.IH obtain ys zs where "S = ys @ b # zs" "P b" "\<forall>z\<in>set zs. \<not> P z"
      by blast
    then have "x # S = (x # ys) @ b # zs \<and> P b \<and> (\<forall>z\<in>set zs. \<not> P z)"
      by simp
    then show ?thesis by blast
  qed
qed

lemma sorted_key_last:
  "sorted (map k S) \<Longrightarrow> a \<in> set S \<Longrightarrow> k a \<le> k (last S)"
proof (induction S)
  case Nil
  then show ?case by simp
next
  case (Cons x S)
  then show ?case by (cases "S = []") auto
qed

lemma sort_key_le_number:
  "get_arch_sort_key a \<le> get_arch_sort_key b \<Longrightarrow> arch_number a \<le> arch_number b"
  by (auto simp: arch_number_def less_eq_prod_def)

lemma sorted_sort_archs: "sorted (map get_arch_sort_key (sort_archs xs))"
  by (simp add: sort_archs_def)

lemma set_sort_archs: "set (sort_archs xs) = set xs"
  by (simp add: sort_archs_def)

lemma sort_archs_Nil_iff: "sort_archs xs = [] \<longleftrightarrow> xs = []"
  using set_sort_archs [of xs] by (metis set_empty)

lemma sort_archs_sorted_id: "sorted (map get_arch_sort_key xs) \<Longrightarrow> sort_archs xs = xs"
  by (simp add: sort_archs_def sort_key_id_if_sorted)

lemma ptx_target_base_mem: "S \<noteq> [] \<Longrightarrow> ptx_target_base S \<in> set S"
proof -
  assume ne: "S \<noteq> []"
  show ?thesis
  proof (cases "find (\<lambda>arch. \<not> re_search_letter_end arch) (rev S)")
    case None
    with ne show ?thesis by (simp add: ptx_target_base_def)
  next
    case (Some b)
    then have "b \<in> set S"
      by (auto dest: find_rev_Some)
    with Some ne show ?thesis by (simp add: ptx_target_base_def)
  qed
qed

lemma ptx_target_base_unsuffixed:
  assumes srt: "sorted (map get_arch_sort_key S)" and ne: "[] \<notin> set S"
    and ex: "\<exists>a\<in>set S. \<not> re_search_letter_end a"
  shows "\<not> re_search_letter_end (ptx_target_base S) \<and>
         (\<forall>a\<in>set S. \<not> re_search_letter_end a \<longrightarrow>
            get_arch_sort_key a \<le> get_arch_sort_key (ptx_target_base S))"
proof -
  let ?P = "\<lambda>arch. \<not> re_search_letter_end arch"
  from ex obtain b where f: "find ?P (rev S) = Some b"
    by (cases "find ?P (rev S)") (auto simp: find_None_iff)
  then obtain ys zs where S: "S = ys @ b # zs" and b: "?P b" and zs: "\<forall>z\<in>set zs. \<not> ?P z"
    by (blast dest: find_rev_Some)
  from S ne have "b \<noteq> []" by auto
  with f have base: "ptx_target_base S = b"
    by (simp add: ptx_target_base_def)
  have "get_arch_sort_key a \<le> get_arch_sort_key b" if "a \<in> set S" "?P a" for a
  proof -
    from that zs S have "a \<in> set ys \<or> a = b" by auto
    moreover from srt S have "\<forall>y\<in>set ys. get_arch_sort_key y \<le> get_arch_sort_key b"
      by (simp add: sorted_append)
    ultimately show ?thesis by auto
  qed
  with b base show ?thesis by simp
qed

lemma ptx_target_base_all_suffixed:
  assumes srt: "sorted (map get_arch_sort_key S)"
    and al: "\<forall>a\<in>set S. re_search_letter_end a"
  shows "ptx_target_base S = last S \<and>
         (\<forall>a\<in>set S. get_arch_sort_key a \<le> get_arch_sort_key (ptx_target_base S))"
proof -
  from al have "find (\<lambda>arch. \<not> re_search_letter_end arch) (rev S) = None"
    by (simp add: find_None_iff)
  then have "ptx_target_base S = last S"
    by (simp add: ptx_target_base_def)
  with srt show ?thesis
    by (simp add: sorted_key_last)
qed

lemma re_search_letter_end_no_eol:
  "s = [] \<or> last s \<noteq> newline \<Longrightarrow> re_search_letter_end s = trailing_letter s"
  by (auto simp: re_search_letter_end_def before_eol_def trailing_letter_def)

lemma real_not_virtual: "\<not> suffix ''-virtual'' (a @ ''-real'')"
  by (simp add: suffix_to_prefix)

lemma virtual_not_real: "\<not> suffix ''-real'' (b @ ''-virtual'')"
  by (simp add: suffix_to_prefix)

lemma suffix_own: "suffix t (a @ t)"
  by (rule suffixI) (rule refl)

lemma filter_virtual:
  "filter (suffix ''-virtual'') (map (\<lambda>a. a @ ''-real'') S @ [b @ ''-virtual'']) = [b @ ''-virtual'']"
  by (simp add: filter_map o_def real_not_virtual suffix_own)

lemma filter_real:
  "filter (suffix ''-real'') (map (\<lambda>a. a @ ''-real'') S @ [b @ ''-virtual''])
   = map (\<lambda>a. a @ ''-real'') S"
  by (simp add: filter_map o_def virtual_not_real suffix_own)

lemma generate_shape:
  "xs \<noteq> [] \<Longrightarrow>
   generate_sass_ptx_arch_list xs
     = Inr (map (\<lambda>a. a @ ''-real'') (sort_archs xs) @ [ptx_target_base (sort_archs xs) @ ''-virtual''])"
  by (simp add: generate_sass_ptx_arch_list_def Let_def)

lemma count_list_distinct: "distinct xs \<Longrightarrow> a \<in> set xs \<Longrightarrow> count_list xs a = 1"
  by (induction xs) auto

lemma count_real:
  assumes "distinct S" "a \<in> set S"
  shows "count_list (map (\<lambda>a. a @ ''-real'') S @ [b @ ''-virtual'']) (a @ ''-real'') = 1"
proof -
  have "b @ ''-virtual'' \<noteq> a @ ''-real''"
    using virtual_not_real [of b] by (metis suffixI)
  moreover have "count_list (map (\<lambda>a. a @ ''-real'') S) (a @ ''-real'') = count_list S a"
    by (rule count_list_map_conv) (simp add: inj_def)
  ultimately show ?thesis
    using assms by (simp add: count_list_distinct)
qed

text \<open>
  Claim C1. For every target list that is not empty, whose identifiers are tokens that
  are not empty and do not end with a newline, the formatter gives one \<open>-virtual\<close> entry,
  made from an identifier \<open>b\<close> of the list. When some identifier has no trailing letter,
  \<open>b\<close> has no trailing letter and no identifier without a trailing letter has a greater
  number. When every identifier has a trailing letter, no identifier has a greater number
  than \<open>b\<close>, which keeps its suffix in the entry.
\<close>

theorem virtual_target_choice:
  assumes ne: "target_archs \<noteq> []"
    and ids: "\<forall>a\<in>set target_archs. a \<noteq> [] \<and> last a \<noteq> newline"
  shows "\<exists>b\<in>set target_archs.
           generate_sass_ptx_arch_list target_archs
             = Inr (map (\<lambda>a. a @ ''-real'') (sort_archs target_archs) @ [b @ ''-virtual'']) \<and>
           filter (suffix ''-virtual'')
               (map (\<lambda>a. a @ ''-real'') (sort_archs target_archs) @ [b @ ''-virtual''])
             = [b @ ''-virtual''] \<and>
           ((\<exists>a\<in>set target_archs. \<not> trailing_letter a) \<longrightarrow>
              \<not> trailing_letter b \<and>
              (\<forall>a\<in>set target_archs. \<not> trailing_letter a \<longrightarrow> arch_number a \<le> arch_number b)) \<and>
           ((\<forall>a\<in>set target_archs. trailing_letter a) \<longrightarrow>
              (\<forall>a\<in>set target_archs. arch_number a \<le> arch_number b))"
proof -
  let ?S = "sort_archs target_archs"
  let ?b = "ptx_target_base ?S"
  have Sne: "?S \<noteq> []"
    using ne by (simp add: sort_archs_Nil_iff)
  have srt: "sorted (map get_arch_sort_key ?S)"
    by (rule sorted_sort_archs)
  have tl: "re_search_letter_end a = trailing_letter a" if "a \<in> set target_archs" for a
    using ids that by (simp add: re_search_letter_end_no_eol)
  have mem: "?b \<in> set target_archs"
    using ptx_target_base_mem [OF Sne] by (simp add: set_sort_archs)
  have gen: "generate_sass_ptx_arch_list target_archs
               = Inr (map (\<lambda>a. a @ ''-real'') ?S @ [?b @ ''-virtual''])"
    using ne by (rule generate_shape)
  have one: "filter (suffix ''-virtual'') (map (\<lambda>a. a @ ''-real'') ?S @ [?b @ ''-virtual''])
               = [?b @ ''-virtual'']"
    by (rule filter_virtual)
  have unsuf: "\<not> trailing_letter ?b \<and>
               (\<forall>a\<in>set target_archs. \<not> trailing_letter a \<longrightarrow> arch_number a \<le> arch_number ?b)"
    if ex: "\<exists>a\<in>set target_archs. \<not> trailing_letter a"
  proof -
    have "[] \<notin> set ?S"
      using ids by (auto simp: set_sort_archs)
    moreover have "\<exists>a\<in>set ?S. \<not> re_search_letter_end a"
      using ex tl by (auto simp: set_sort_archs)
    ultimately have r: "\<not> re_search_letter_end ?b \<and>
         (\<forall>a\<in>set ?S. \<not> re_search_letter_end a \<longrightarrow> get_arch_sort_key a \<le> get_arch_sort_key ?b)"
      using srt by (intro ptx_target_base_unsuffixed)
    then have "\<not> trailing_letter ?b"
      using tl [OF mem] by simp
    moreover have "arch_number a \<le> arch_number ?b"
      if "a \<in> set target_archs" "\<not> trailing_letter a" for a
      using r that tl [OF that(1)] by (simp add: set_sort_archs sort_key_le_number)
    ultimately show ?thesis by simp
  qed
  have allsuf: "\<forall>a\<in>set target_archs. arch_number a \<le> arch_number ?b"
    if al: "\<forall>a\<in>set target_archs. trailing_letter a"
  proof -
    have "\<forall>a\<in>set ?S. re_search_letter_end a"
      using al tl by (simp add: set_sort_archs)
    with srt have "\<forall>a\<in>set ?S. get_arch_sort_key a \<le> get_arch_sort_key ?b"
      by (rule ptx_target_base_all_suffixed [THEN conjunct2])
    then show ?thesis
      by (simp add: set_sort_archs sort_key_le_number)
  qed
  from mem gen one unsuf allsuf show ?thesis
    by blast
qed

lemma virtual_examples:
  "generate_sass_ptx_arch_list [''90a'', ''80'', ''100a'', ''90'']
     = Inr [''80-real'', ''90-real'', ''90a-real'', ''100a-real'', ''90-virtual'']"
  "generate_sass_ptx_arch_list [''100f'', ''90a'', ''100a'']
     = Inr [''90a-real'', ''100a-real'', ''100f-real'', ''100f-virtual'']"
  by code_simp+

theorem virtual_target_choice_witness:
  "generate_sass_ptx_arch_list [''90a'', ''80'', ''100a'', ''90'']
     = Inr [''80-real'', ''90-real'', ''90a-real'', ''100a-real'', ''90-virtual''] \<and>
   generate_sass_ptx_arch_list [''100f'', ''90a'', ''100a'']
     = Inr [''90a-real'', ''100a-real'', ''100f-real'', ''100f-virtual'']"
proof -
  have h1: "[''90a'', ''80'', ''100a'', ''90''] \<noteq> []"
    by simp
  have h2: "\<forall>a\<in>set [''90a'', ''80'', ''100a'', ''90'']. a \<noteq> [] \<and> last a \<noteq> newline"
    by (simp add: newline_def)
  have k1: "[''100f'', ''90a'', ''100a''] \<noteq> []"
    by simp
  have k2: "\<forall>a\<in>set [''100f'', ''90a'', ''100a'']. a \<noteq> [] \<and> last a \<noteq> newline"
    by (simp add: newline_def)
  from virtual_target_choice [OF h1 h2] obtain b where
    "generate_sass_ptx_arch_list [''90a'', ''80'', ''100a'', ''90'']
       = Inr (map (\<lambda>a. a @ ''-real'') (sort_archs [''90a'', ''80'', ''100a'', ''90'']) @ [b @ ''-virtual''])"
    by blast
  moreover from virtual_target_choice [OF k1 k2] obtain c where
    "generate_sass_ptx_arch_list [''100f'', ''90a'', ''100a'']
       = Inr (map (\<lambda>a. a @ ''-real'') (sort_archs [''100f'', ''90a'', ''100a'']) @ [c @ ''-virtual''])"
    by blast
  ultimately show ?thesis
    by (simp only: virtual_examples simp_thms)
qed

text \<open>
  An empty token is no Architecture Identifier. Were one in the list, it would count as
  an identifier without a trailing letter, and the test \<^verbatim>\<open>if not ptx_target_base\<close> would
  take it for ``none found'': the last identifier of the sorted list is used instead.
\<close>

lemma virtual_target_empty_token:
  "generate_sass_ptx_arch_list ['''', ''90a''] = Inr [''-real'', ''90a-real'', ''90a-virtual'']"
  by code_simp

text \<open>
  Claim C9. For every input list that is not empty, sorted by the canonical ordering and
  without duplicates, the \<open>-real\<close> entries of the formatter's output are the identifiers of
  the input in their order, each identifier once, and the output has exactly one
  \<open>-virtual\<close> entry.
\<close>

theorem formatter_round_trip:
  assumes ne: "xs \<noteq> []" and srt: "sorted (map get_arch_sort_key xs)" and d: "distinct xs"
  shows "\<exists>b\<in>set xs.
           generate_sass_ptx_arch_list xs
             = Inr (map (\<lambda>a. a @ ''-real'') xs @ [b @ ''-virtual'']) \<and>
           (\<forall>a\<in>set xs.
              count_list (map (\<lambda>a. a @ ''-real'') xs @ [b @ ''-virtual'']) (a @ ''-real'') = 1) \<and>
           filter (suffix ''-real'') (map (\<lambda>a. a @ ''-real'') xs @ [b @ ''-virtual''])
             = map (\<lambda>a. a @ ''-real'') xs \<and>
           filter (suffix ''-virtual'') (map (\<lambda>a. a @ ''-real'') xs @ [b @ ''-virtual''])
             = [b @ ''-virtual'']"
proof -
  let ?b = "ptx_target_base xs"
  have S: "sort_archs xs = xs"
    using srt by (rule sort_archs_sorted_id)
  have mem: "?b \<in> set xs"
    using ne by (rule ptx_target_base_mem)
  have gen: "generate_sass_ptx_arch_list xs = Inr (map (\<lambda>a. a @ ''-real'') xs @ [?b @ ''-virtual''])"
    using generate_shape [OF ne] by (simp only: S)
  have cnt: "\<forall>a\<in>set xs.
      count_list (map (\<lambda>a. a @ ''-real'') xs @ [?b @ ''-virtual'']) (a @ ''-real'') = 1"
    using d by (blast intro: count_real)
  from mem gen cnt filter_real [of xs ?b] filter_virtual [of xs ?b] show ?thesis
    by blast
qed

lemma round_trip_example:
  "generate_sass_ptx_arch_list [''75'', ''86'', ''90'', ''90a'']
     = Inr [''75-real'', ''86-real'', ''90-real'', ''90a-real'', ''90-virtual'']"
  "sorted (map get_arch_sort_key [''75'', ''86'', ''90'', ''90a''])"
  by code_simp+

theorem formatter_round_trip_witness:
  "sorted (map get_arch_sort_key [''75'', ''86'', ''90'', ''90a'']) \<and>
   distinct [''75'', ''86'', ''90'', ''90a''] \<and>
   generate_sass_ptx_arch_list [''75'', ''86'', ''90'', ''90a'']
     = Inr [''75-real'', ''86-real'', ''90-real'', ''90a-real'', ''90-virtual'']"
proof -
  have h1: "[''75'', ''86'', ''90'', ''90a''] \<noteq> []"
    by simp
  have h3: "distinct [''75'', ''86'', ''90'', ''90a'']"
    by simp
  from formatter_round_trip [OF h1 round_trip_example(2) h3] obtain b where
    "generate_sass_ptx_arch_list [''75'', ''86'', ''90'', ''90a'']
       = Inr (map (\<lambda>a. a @ ''-real'') [''75'', ''86'', ''90'', ''90a''] @ [b @ ''-virtual''])"
    by blast
  with h3 show ?thesis
    by (simp only: round_trip_example simp_thms)
qed

end
